theory Spec2Isabelle
  imports Main
begin

section \<open>Candidate paths of a localized error page\<close>

text \<open>
  \<^verbatim>\<open>util::getErrorPagePaths\<close> (src/util/Utils.cpp, lines 43-95) builds the list of
  places where a localized error page is looked for.  It uses three operations of
  \<^verbatim>\<open>boost::filesystem\<close> and the parser \<^verbatim>\<open>BCP47::fromString\<close>.  None of them is
  defined in Utils.cpp, so the model takes them as the fields of an environment and
  every theorem holds for all environments.

  A \<^verbatim>\<open>boost::filesystem::path\<close> is modelled by the string it holds: on POSIX the
  constructor stores the string unchanged and \<^verbatim>\<open>string()\<close> gives it back.
\<close>

text \<open>
  The accessors of the class \<^verbatim>\<open>BCP47\<close> that the function calls: \<^verbatim>\<open>language()\<close>,
  \<^verbatim>\<open>hasScript()\<close>, \<^verbatim>\<open>script()\<close>, \<^verbatim>\<open>hasRegion()\<close>, \<^verbatim>\<open>region()\<close>.
\<close>

record BCP47 =
  language :: string
  hasScript :: bool
  script :: string
  hasRegion :: bool
  region :: string

text \<open>
  \<^item> \<open>filename\<close>: \<^verbatim>\<open>fs::path::filename()\<close>;
  \<^item> \<open>parent_path\<close>: \<^verbatim>\<open>fs::path::parent_path()\<close>;
  \<^item> \<open>canonical\<close>: \<^verbatim>\<open>fs::canonical\<close>, which reads the file system and throws
    \<^verbatim>\<open>filesystem_error\<close> when the path does not exist (\<open>None\<close>);
  \<^item> \<open>fromString\<close>: \<^verbatim>\<open>BCP47::fromString\<close>, whose result is a \<^verbatim>\<open>unique_ptr\<close> tested
    by \<^verbatim>\<open>if (bcp47Pieces)\<close>: the null pointer is \<open>None\<close>.
\<close>

record env =
  filename :: "string \<Rightarrow> string"
  parent_path :: "string \<Rightarrow> string"
  canonical :: "string \<Rightarrow> string option"
  fromString :: "string \<Rightarrow> BCP47 option"

datatype error = filesystem_error

text \<open>
  The three \<^verbatim>\<open>stringstream\<close> blocks of lines 64-90, in the order in which they
  \<^verbatim>\<open>emplace_back\<close> into \<^verbatim>\<open>result\<close>.
\<close>

definition localized :: "string \<Rightarrow> string \<Rightarrow> BCP47 \<Rightarrow> string list" where
  "localized searchPath fname p =
     (if hasScript p
      then [searchPath @ ''/resources/'' @ language p @ ''/'' @ script p
              @ (if hasRegion p then ''/'' @ region p else [])
              @ ''/html/'' @ fname]
      else [])
     @ (if hasRegion p
        then [searchPath @ ''/resources/'' @ language p @ ''/'' @ region p @ ''/html/'' @ fname]
        else [])
     @ [searchPath @ ''/resources/'' @ language p @ ''/html/'' @ fname]"

definition getErrorPagePaths :: "env \<Rightarrow> string \<Rightarrow> string \<Rightarrow> error + string list" where
  "getErrorPagePaths E errorPageLocation lang =
     (if errorPageLocation = [] then Inr []
      else
        let fname = filename E errorPageLocation in
        case canonical E (parent_path E errorPageLocation) of
          None \<Rightarrow> Inl filesystem_error
        | Some searchPath \<Rightarrow>
            let result = (case fromString E lang of
                            None \<Rightarrow> []
                          | Some p \<Rightarrow> localized searchPath fname p)
            in Inr (result @ [searchPath @ ''/resources/html/'' @ fname, errorPageLocation]))"

text \<open>
  Modelled from the spec: \<^verbatim>\<open>BCP47::fromString\<close> (BCP47.h and BCP47.cpp are not among
  the sources).  Section 4.1, step 2 of the specification says that parsing fails when
  the tag is empty; this is the only property of the parser that is taken from there.
\<close>

definition rejects_empty_tag :: "env \<Rightarrow> bool" where
  "rejects_empty_tag E \<longleftrightarrow> fromString E [] = None"

subsection \<open>A sample environment\<close>

text \<open>
  One environment to evaluate the function in: paths are split at the last slash, the
  single directory \<^verbatim>\<open>/usr/share/wam\<close> exists, and the parser knows three tags.
\<close>

definition sample_filename :: "string \<Rightarrow> string" where
  "sample_filename p = rev (takeWhile (\<lambda>c. c \<noteq> CHR ''/'') (rev p))"

definition sample_parent_path :: "string \<Rightarrow> string" where
  "sample_parent_path p = rev (drop 1 (dropWhile (\<lambda>c. c \<noteq> CHR ''/'') (rev p)))"

definition sample_tags :: "(string \<times> BCP47) list" where
  "sample_tags =
     [(''zh-Hant-TW'', \<lparr>language = ''zh'', hasScript = True, script = ''Hant'',
                       hasRegion = True, region = ''TW''\<rparr>),
      (''en-US'', \<lparr>language = ''en'', hasScript = False, script = [],
                  hasRegion = True, region = ''US''\<rparr>),
      (''en'', \<lparr>language = ''en'', hasScript = False, script = [],
               hasRegion = False, region = []\<rparr>)]"

definition sample_env :: env where
  "sample_env =
     \<lparr>filename = sample_filename,
      parent_path = sample_parent_path,
      canonical = (\<lambda>p. if p = ''/usr/share/wam'' then Some p else None),
      fromString = map_of sample_tags\<rparr>"

section \<open>The host name of a URL\<close>

text \<open>
  \<^verbatim>\<open>util::getHostname\<close> (src/util/Utils.cpp, lines 97-116) applies two patterns with
  \<^verbatim>\<open>std::regex_match\<close>.  The patterns are written here as syntax trees, and
  \<^verbatim>\<open>std::regex_match\<close> in its default ECMAScript grammar as a backtracking matcher over
  those trees.  A \<^verbatim>\<open>std::string\<close> is a list of bytes.
\<close>

subsection \<open>Patterns\<close>

text \<open>
  The members of a bracket expression: a character, a range \<^verbatim>\<open>a-b\<close>, the class \<^verbatim>\<open>\w\<close>.
\<close>

datatype atom = Chr char | CharRange char char | WordClass

text \<open>
  What matches one character: a literal, a bracket expression (\<open>True\<close> when it starts
  with \<^verbatim>\<open>^\<close>), the dot.
\<close>

datatype matcher = Lit char | Bracket bool "atom list" | AnyChar

text \<open>
  The two patterns quantify only over single characters (\<^verbatim>\<open>[...]*\<close>, \<^verbatim>\<open>[...]+\<close>,
  \<^verbatim>\<open>.*\<close>), so \<open>ZeroOrMore\<close> and \<open>OneOrMore\<close> take a matcher; \<^verbatim>\<open>?\<close> applies to any
  pattern.  \<open>Caret\<close> is \<^verbatim>\<open>^\<close>, \<open>Capture n\<close> is the \<open>n\<close>-th parenthesis.  A group
  \<^verbatim>\<open>(?:...)\<close> captures nothing and is its body.
\<close>

datatype regex =
    Caret
  | Single matcher
  | ZeroOrMore matcher
  | OneOrMore matcher
  | Optional regex
  | Concat regex regex
  | Capture nat regex

text \<open>
  \<^verbatim>\<open>\w\<close> is a letter, a digit or the underscore.  The letters and digits are those of
  the classic "C" locale, the locale of a \<^verbatim>\<open>std::regex\<close> unless the program installs
  another one.
\<close>

definition is_word :: "char \<Rightarrow> bool" where
  "is_word ch =
     (let n = (of_char ch :: nat)
      in (48 \<le> n \<and> n \<le> 57) \<or> (65 \<le> n \<and> n \<le> 90) \<or> (97 \<le> n \<and> n \<le> 122) \<or> n = 95)"

fun in_atom :: "atom \<Rightarrow> char \<Rightarrow> bool" where
  "in_atom (Chr a) ch = (ch = a)"
| "in_atom (CharRange lo hi) ch =
     ((of_char lo :: nat) \<le> of_char ch \<and> (of_char ch :: nat) \<le> of_char hi)"
| "in_atom WordClass ch = is_word ch"

text \<open>
  In the ECMAScript grammar the dot matches every character but the line terminators
  (line feed and carriage return for \<^verbatim>\<open>char\<close>).
\<close>

fun accepts :: "matcher \<Rightarrow> char \<Rightarrow> bool" where
  "accepts (Lit a) ch = (ch = a)"
| "accepts (Bracket negated atoms) ch = (list_ex (\<lambda>a. in_atom a ch) atoms \<noteq> negated)"
| "accepts AnyChar ch = (ch \<noteq> CHR 0x0A \<and> ch \<noteq> CHR 0x0D)"

subsection \<open>Matching\<close>

text \<open>
  The matcher works on a stack of what is still to be matched.  \<open>Close n s0\<close> ends the
  \<open>n\<close>-th capture, which began when the rest of the input was \<open>s0\<close>.
\<close>

datatype instr = Match regex | Close nat string

text \<open>
  \<^verbatim>\<open>std::smatch\<close>: the text of every capture that took part in the match.
\<close>

type_synonym match_results = "nat \<rightharpoonup> string"

fun weight :: "regex \<Rightarrow> nat" where
  "weight Caret = 1"
| "weight (Single m) = 1"
| "weight (ZeroOrMore m) = 1"
| "weight (OneOrMore m) = 3"
| "weight (Optional r) = weight r + 1"
| "weight (Concat r1 r2) = weight r1 + weight r2 + 1"
| "weight (Capture n r) = weight r + 2"

fun iweight :: "instr \<Rightarrow> nat" where
  "iweight (Match r) = weight r"
| "iweight (Close n s) = 1"

text \<open>
  \<open>run inp k s c\<close>: the whole input is \<open>inp\<close>, \<open>s\<close> is what is left of it, \<open>c\<close> holds
  the captures so far.  The quantifiers are greedy: they first try to take one more
  character (or the optional part), and fall back when the rest does not match.  The
  empty stack succeeds only at the end of the input, as \<^verbatim>\<open>regex_match\<close> (unlike
  \<^verbatim>\<open>regex_search\<close>) asks for.  \<open>None\<close> is "no match".  The first success in this
  order of trials is the match, and a capture set on a path that is given up is
  forgotten with it.  No quantified part of the two patterns can match the empty
  string, so the rule of ECMAScript about empty iterations never applies.
\<close>

function run :: "string \<Rightarrow> instr list \<Rightarrow> string \<Rightarrow> match_results \<Rightarrow> match_results option" where
  "run inp [] s c = (if s = [] then Some c else None)"
| "run inp (Match Caret # k) s c = (if length s = length inp then run inp k s c else None)"
| "run inp (Match (Single m) # k) s c =
     (case s of
        [] \<Rightarrow> None
      | x # xs \<Rightarrow> if accepts m x then run inp k xs c else None)"
| "run inp (Match (ZeroOrMore m) # k) s c =
     (case s of
        [] \<Rightarrow> run inp k s c
      | x # xs \<Rightarrow>
          if accepts m x
          then (case run inp (Match (ZeroOrMore m) # k) xs c of
                  Some c' \<Rightarrow> Some c'
                | None \<Rightarrow> run inp k s c)
          else run inp k s c)"
| "run inp (Match (OneOrMore m) # k) s c =
     run inp (Match (Single m) # Match (ZeroOrMore m) # k) s c"
| "run inp (Match (Optional r) # k) s c =
     (case run inp (Match r # k) s c of
        Some c' \<Rightarrow> Some c'
      | None \<Rightarrow> run inp k s c)"
| "run inp (Match (Concat r1 r2) # k) s c = run inp (Match r1 # Match r2 # k) s c"
| "run inp (Match (Capture n r) # k) s c = run inp (Match r # Close n s # k) s c"
| "run inp (Close n s0 # k) s c = run inp k s (c(n \<mapsto> take (length s0 - length s) s0))"
  by pat_completeness auto
termination
  by (relation "measures [\<lambda>(inp, k, s, c). length s,
                          \<lambda>(inp, k, s, c). sum_list (map iweight k)]")
    auto

declare run.simps [simp del]

definition regex_match :: "regex \<Rightarrow> string \<Rightarrow> match_results option" where
  "regex_match re s = run s [Match re] s Map.empty"

text \<open>
  The conversion of \<^verbatim>\<open>matches[n]\<close> to \<^verbatim>\<open>std::string\<close>: the empty string when the group
  took no part in the match.
\<close>

definition str :: "match_results \<Rightarrow> nat \<Rightarrow> string" where
  "str m n = (case m n of None \<Rightarrow> [] | Some s \<Rightarrow> s)"

subsection \<open>The two patterns and the function\<close>

text \<open>
  Line 104:
  \<^verbatim>\<open>^(([^:\/?#]+):)?(\/\/([^\/?#]*))?([^?#]*)(\?([^#]*))?(#(.*))?\<close>
\<close>

definition rfc3986Regex :: regex where
  "rfc3986Regex =
     Concat Caret
    (Concat (Optional (Capture 1
               (Concat (Capture 2 (OneOrMore (Bracket True
                          [Chr CHR '':'', Chr CHR ''/'', Chr CHR ''?'', Chr CHR ''#''])))
                       (Single (Lit CHR '':'')))))
    (Concat (Optional (Capture 3
               (Concat (Single (Lit CHR ''/''))
               (Concat (Single (Lit CHR ''/''))
                       (Capture 4 (ZeroOrMore (Bracket True
                          [Chr CHR ''/'', Chr CHR ''?'', Chr CHR ''#''])))))))
    (Concat (Capture 5 (ZeroOrMore (Bracket True [Chr CHR ''?'', Chr CHR ''#''])))
    (Concat (Optional (Capture 6
               (Concat (Single (Lit CHR ''?''))
                       (Capture 7 (ZeroOrMore (Bracket True [Chr CHR ''#'']))))))
            (Optional (Capture 8
               (Concat (Single (Lit CHR ''#''))
                       (Capture 9 (ZeroOrMore AnyChar)))))))))"

text \<open>
  Line 105:
  \<^verbatim>\<open>^(?:[\w\:]+[@])?([\w.]+)(?:[:])?(?:[0-9]+)?\<close>
\<close>

definition authorityRegex :: regex where
  "authorityRegex =
     Concat Caret
    (Concat (Optional (Concat (OneOrMore (Bracket False [WordClass, Chr CHR '':'']))
                              (Single (Bracket False [Chr CHR ''@'']))))
    (Concat (Capture 1 (OneOrMore (Bracket False [WordClass, Chr CHR ''.''])))
    (Concat (Optional (Single (Bracket False [Chr CHR '':''])))
            (Optional (OneOrMore (Bracket False [CharRange CHR ''0'' CHR ''9'']))))))"

definition getHostname :: "string \<Rightarrow> string" where
  "getHostname url =
     (if url = [] then []
      else (case regex_match rfc3986Regex url of
              None \<Rightarrow> []
            | Some matches \<Rightarrow>
                let authority = str matches 4
                in (case regex_match authorityRegex authority of
                      None \<Rightarrow> []
                    | Some matches' \<Rightarrow> str matches' 1)))"

subsection \<open>A matcher with bounded depth\<close>






subsection \<open>Notions used in the proofs\<close>

text \<open>The captures a pattern, or an entry of the stack, can set.\<close>

fun groups :: "regex \<Rightarrow> nat set" where
  "groups (Capture n r) = insert n (groups r)"
| "groups (Optional r) = groups r"
| "groups (Concat r1 r2) = groups r1 \<union> groups r2"
| "groups _ = {}"

fun closes :: "instr \<Rightarrow> nat set" where
  "closes (Match r) = groups r"
| "closes (Close n s) = {n}"

text \<open>The characters of \<^verbatim>\<open>[\w.]\<close>.\<close>

definition hostch :: "char \<Rightarrow> bool" where
  "hostch ch \<longleftrightarrow> is_word ch \<or> ch = CHR ''.''"

section \<open>Theorems about getErrorPagePaths\<close>

lemma sample_split:
  "sample_parent_path ''/usr/share/wam/error.html'' = ''/usr/share/wam''"
  "sample_filename ''/usr/share/wam/error.html'' = ''error.html''"
  "sample_parent_path ''/nowhere/error.html'' = ''/nowhere''"
  by (simp_all add: sample_parent_path_def sample_filename_def)

lemma sample_fields:
  "filename sample_env = sample_filename"
  "parent_path sample_env = sample_parent_path"
  "canonical sample_env p = (if p = ''/usr/share/wam'' then Some p else None)"
  "fromString sample_env = map_of sample_tags"
  by (simp_all add: sample_env_def)

text \<open>
  C4.  For every language tag, \<open>getErrorPagePaths\<close> of the empty location returns the
  empty list.  It is a normal return (\<open>Inr\<close>), and it holds in every environment: the
  result depends on no file system operation and on no answer of the parser.
\<close>

theorem getErrorPagePaths_empty_location:
  "getErrorPagePaths E [] tag = Inr []"
  by (simp add: getErrorPagePaths_def)

text \<open>
  C1.  Let the location be non-empty and let its parent directory canonicalize to
  \<open>dir\<close>.  If the tag is not parsed (the parser returns no object), or the tag is empty
  and the parser rejects the empty tag as the specification says it does, the result is
  exactly two candidates: \<open>dir/resources/html/filename\<close>, then the location as it was
  given.
\<close>

theorem getErrorPagePaths_unparsed_tag:
  assumes "errorPageLocation \<noteq> []"
    and "canonical E (parent_path E errorPageLocation) = Some dir"
    and "tag = [] \<and> rejects_empty_tag E \<or> fromString E tag = None"
  shows "getErrorPagePaths E errorPageLocation tag =
           Inr [dir @ ''/resources/html/'' @ filename E errorPageLocation, errorPageLocation]"
proof -
  from assms(3) have "fromString E tag = None"
    by (auto simp add: rejects_empty_tag_def)
  with assms(1,2) show ?thesis
    by (simp add: getErrorPagePaths_def Let_def)
qed

theorem getErrorPagePaths_unparsed_tag_witness:
  "''/usr/share/wam/error.html'' \<noteq> []
   \<and> canonical sample_env (parent_path sample_env ''/usr/share/wam/error.html'')
       = Some ''/usr/share/wam''
   \<and> rejects_empty_tag sample_env
   \<and> fromString sample_env ''xx-!!'' = None
   \<and> getErrorPagePaths sample_env ''/usr/share/wam/error.html'' [] =
       Inr [''/usr/share/wam/resources/html/error.html'', ''/usr/share/wam/error.html'']
   \<and> getErrorPagePaths sample_env ''/usr/share/wam/error.html'' ''xx-!!'' =
       Inr [''/usr/share/wam/resources/html/error.html'', ''/usr/share/wam/error.html'']"
proof -
  have ne: "''/usr/share/wam/error.html'' \<noteq> []" by simp
  have dir: "canonical sample_env (parent_path sample_env ''/usr/share/wam/error.html'')
               = Some ''/usr/share/wam''"
    by (simp add: sample_fields sample_split)
  have rej: "rejects_empty_tag sample_env"
    by (simp add: rejects_empty_tag_def sample_fields sample_tags_def)
  have bad: "fromString sample_env ''xx-!!'' = None"
    by (simp add: sample_fields sample_tags_def)
  have a: "[] = [] \<and> rejects_empty_tag sample_env \<or> fromString sample_env [] = None"
    using rej by simp
  have b: "''xx-!!'' = [] \<and> rejects_empty_tag sample_env
           \<or> fromString sample_env ''xx-!!'' = None"
    using bad by simp
  show ?thesis
    using ne dir rej bad
      getErrorPagePaths_unparsed_tag [OF ne dir a]
      getErrorPagePaths_unparsed_tag [OF ne dir b]
    by (simp add: sample_fields sample_split)
qed

text \<open>
  C2.  Let the location be non-empty and let its parent directory canonicalize to
  \<open>dir\<close>.  If the tag parses with a script and a region, the result is exactly five
  candidates in this order: language/script/region, language/region, language alone,
  the generic \<open>dir/resources/html/filename\<close>, and the location as it was given.
\<close>

theorem getErrorPagePaths_script_and_region:
  assumes "errorPageLocation \<noteq> []"
    and "canonical E (parent_path E errorPageLocation) = Some dir"
    and "fromString E tag = Some p"
    and "hasScript p" and "hasRegion p"
  shows "getErrorPagePaths E errorPageLocation tag =
           Inr [dir @ ''/resources/'' @ language p @ ''/'' @ script p @ ''/'' @ region p
                  @ ''/html/'' @ filename E errorPageLocation,
                dir @ ''/resources/'' @ language p @ ''/'' @ region p
                  @ ''/html/'' @ filename E errorPageLocation,
                dir @ ''/resources/'' @ language p @ ''/html/'' @ filename E errorPageLocation,
                dir @ ''/resources/html/'' @ filename E errorPageLocation,
                errorPageLocation]"
  using assms by (simp add: getErrorPagePaths_def localized_def Let_def)

theorem getErrorPagePaths_script_and_region_witness:
  "getErrorPagePaths sample_env ''/usr/share/wam/error.html'' ''zh-Hant-TW'' =
     Inr [''/usr/share/wam/resources/zh/Hant/TW/html/error.html'',
          ''/usr/share/wam/resources/zh/TW/html/error.html'',
          ''/usr/share/wam/resources/zh/html/error.html'',
          ''/usr/share/wam/resources/html/error.html'',
          ''/usr/share/wam/error.html'']"
proof -
  let ?p = "\<lparr>language = ''zh'', hasScript = True, script = ''Hant'',
             hasRegion = True, region = ''TW''\<rparr>"
  have ne: "''/usr/share/wam/error.html'' \<noteq> []" by simp
  have dir: "canonical sample_env (parent_path sample_env ''/usr/share/wam/error.html'')
               = Some ''/usr/share/wam''"
    by (simp add: sample_fields sample_split)
  have tag: "fromString sample_env ''zh-Hant-TW'' = Some ?p"
    by (simp add: sample_fields sample_tags_def)
  have s: "hasScript ?p" and r: "hasRegion ?p" by simp_all
  show ?thesis
    using getErrorPagePaths_script_and_region [OF ne dir tag s r]
    by (simp add: sample_fields sample_split)
qed

text \<open>
  C3.  Let the location be non-empty and let its parent directory canonicalize to
  \<open>dir\<close>.  If the tag parses with a region and no script, the result is exactly four
  candidates, and \<open>dir/resources/language/region/html/filename\<close> is the first of them,
  before the candidate of the language alone and the generic one.
\<close>

theorem getErrorPagePaths_region_only:
  assumes "errorPageLocation \<noteq> []"
    and "canonical E (parent_path E errorPageLocation) = Some dir"
    and "fromString E tag = Some p"
    and "\<not> hasScript p" and "hasRegion p"
  shows "getErrorPagePaths E errorPageLocation tag =
           Inr [dir @ ''/resources/'' @ language p @ ''/'' @ region p
                  @ ''/html/'' @ filename E errorPageLocation,
                dir @ ''/resources/'' @ language p @ ''/html/'' @ filename E errorPageLocation,
                dir @ ''/resources/html/'' @ filename E errorPageLocation,
                errorPageLocation]"
  using assms by (simp add: getErrorPagePaths_def localized_def Let_def)

theorem getErrorPagePaths_region_only_witness:
  "getErrorPagePaths sample_env ''/usr/share/wam/error.html'' ''en-US'' =
     Inr [''/usr/share/wam/resources/en/US/html/error.html'',
          ''/usr/share/wam/resources/en/html/error.html'',
          ''/usr/share/wam/resources/html/error.html'',
          ''/usr/share/wam/error.html'']"
proof -
  let ?p = "\<lparr>language = ''en'', hasScript = False, script = [],
             hasRegion = True, region = ''US''\<rparr>"
  have ne: "''/usr/share/wam/error.html'' \<noteq> []" by simp
  have dir: "canonical sample_env (parent_path sample_env ''/usr/share/wam/error.html'')
               = Some ''/usr/share/wam''"
    by (simp add: sample_fields sample_split)
  have tag: "fromString sample_env ''en-US'' = Some ?p"
    by (simp add: sample_fields sample_tags_def)
  have s: "\<not> hasScript ?p" and r: "hasRegion ?p" by simp_all
  show ?thesis
    using getErrorPagePaths_region_only [OF ne dir tag s r]
    by (simp add: sample_fields sample_split)
qed

text \<open>
  C5.  \<open>getErrorPagePaths\<close> fails if and only if the location is non-empty and the
  canonicalization of its parent directory fails.  A tag that is not parsed is no error:
  when the directory canonicalizes to \<open>dir\<close>, the result is the normal return of the
  generic candidate and the location.
\<close>

theorem getErrorPagePaths_fails_iff:
  "(isl (getErrorPagePaths E errorPageLocation tag) \<longleftrightarrow>
      errorPageLocation \<noteq> [] \<and> canonical E (parent_path E errorPageLocation) = None)
   \<and> (errorPageLocation \<noteq> []
        \<and> canonical E (parent_path E errorPageLocation) = Some dir
        \<and> fromString E tag = None \<longrightarrow>
      getErrorPagePaths E errorPageLocation tag =
        Inr [dir @ ''/resources/html/'' @ filename E errorPageLocation, errorPageLocation])"
  by (auto simp add: getErrorPagePaths_def Let_def split: option.splits)

theorem getErrorPagePaths_fails_iff_witness:
  "getErrorPagePaths sample_env ''/nowhere/error.html'' ''en-US'' = Inl filesystem_error
   \<and> canonical sample_env (parent_path sample_env ''/nowhere/error.html'') = None
   \<and> fromString sample_env ''e_n'' = None
   \<and> getErrorPagePaths sample_env ''/usr/share/wam/error.html'' ''e_n'' =
       Inr [''/usr/share/wam/resources/html/error.html'', ''/usr/share/wam/error.html'']"
proof -
  have none: "canonical sample_env (parent_path sample_env ''/nowhere/error.html'') = None"
    by (simp add: sample_fields sample_split)
  have dir: "canonical sample_env (parent_path sample_env ''/usr/share/wam/error.html'')
               = Some ''/usr/share/wam''"
    by (simp add: sample_fields sample_split)
  have bad: "fromString sample_env ''e_n'' = None"
    by (simp add: sample_fields sample_tags_def)
  have "isl (getErrorPagePaths sample_env ''/nowhere/error.html'' ''en-US'')"
    using none getErrorPagePaths_fails_iff [of sample_env "''/nowhere/error.html''" "''en-US''"]
    by simp
  then have failed: "getErrorPagePaths sample_env ''/nowhere/error.html'' ''en-US''
                       = Inl filesystem_error"
    by (cases "getErrorPagePaths sample_env ''/nowhere/error.html'' ''en-US''")
      (simp_all, metis error.exhaust)
  show ?thesis
    using failed none bad dir
      getErrorPagePaths_fails_iff
        [of sample_env "''/usr/share/wam/error.html''" "''e_n''" "''/usr/share/wam''"]
    by (simp add: sample_fields sample_split)
qed

text \<open>
  C6, as stated: every list that is returned has between 2 and 5 elements.  It fails
  at the empty location, where the function returns the empty list.
\<close>

theorem getErrorPagePaths_length_counterexample:
  "getErrorPagePaths sample_env [] ''en-US'' = Inr []
   \<and> \<not> 2 \<le> length (projr (getErrorPagePaths sample_env [] ''en-US''))"
  by (simp add: getErrorPagePaths_def)

text \<open>
  C6, amended: every list that is returned for a non-empty location has between 2 and
  5 elements, and the list that is returned for the empty location is empty.
\<close>

theorem getErrorPagePaths_length:
  assumes "getErrorPagePaths E errorPageLocation tag = Inr ps"
  shows "if errorPageLocation = [] then ps = [] else 2 \<le> length ps \<and> length ps \<le> 5"
  using assms
  by (auto simp add: getErrorPagePaths_def localized_def Let_def
      split: option.splits if_splits)

theorem getErrorPagePaths_length_witness:
  "getErrorPagePaths sample_env ''/usr/share/wam/error.html'' ''zh-Hant-TW'' =
     Inr [''/usr/share/wam/resources/zh/Hant/TW/html/error.html'',
          ''/usr/share/wam/resources/zh/TW/html/error.html'',
          ''/usr/share/wam/resources/zh/html/error.html'',
          ''/usr/share/wam/resources/html/error.html'',
          ''/usr/share/wam/error.html'']
   \<and> 2 \<le> length [''/usr/share/wam/resources/zh/Hant/TW/html/error.html'',
          ''/usr/share/wam/resources/zh/TW/html/error.html'',
          ''/usr/share/wam/resources/zh/html/error.html'',
          ''/usr/share/wam/resources/html/error.html'',
          ''/usr/share/wam/error.html'']
   \<and> length [''/usr/share/wam/resources/zh/Hant/TW/html/error.html'',
          ''/usr/share/wam/resources/zh/TW/html/error.html'',
          ''/usr/share/wam/resources/zh/html/error.html'',
          ''/usr/share/wam/resources/html/error.html'',
          ''/usr/share/wam/error.html''] \<le> 5"
proof -
  have run: "getErrorPagePaths sample_env ''/usr/share/wam/error.html'' ''zh-Hant-TW'' =
     Inr [''/usr/share/wam/resources/zh/Hant/TW/html/error.html'',
          ''/usr/share/wam/resources/zh/TW/html/error.html'',
          ''/usr/share/wam/resources/zh/html/error.html'',
          ''/usr/share/wam/resources/html/error.html'',
          ''/usr/share/wam/error.html'']"
    by (simp add: getErrorPagePaths_def localized_def Let_def sample_fields sample_split
        sample_tags_def)
  show ?thesis
    using run getErrorPagePaths_length [OF run] by simp
qed

section \<open>Theorems about getHostname\<close>

subsection \<open>What a successful run leaves behind\<close>

text \<open>A capture that nothing on the stack can set keeps its value.\<close>

lemma run_keeps:
  "run inp k s c = Some c' \<Longrightarrow> \<forall>i\<in>set k. g \<notin> closes i \<Longrightarrow> c' g = c g"
proof (induction inp k s c rule: run.induct)
  case (1 inp s c)
  then show ?case by (simp add: run.simps(1) split: if_splits)
next
  case (2 inp k s c)
  then show ?case by (simp add: run.simps(2) split: if_splits)
next
  case (3 inp m k s c)
  then show ?case by (cases s) (simp_all add: run.simps(3) split: if_splits)
next
  case (4 inp m k s c)
  show ?case
  proof (cases s)
    case Nil
    with 4 show ?thesis by (simp add: run.simps(4))
  next
    case (Cons x xs)
    show ?thesis
    proof (cases "accepts m x")
      case True
      note acc = this
      show ?thesis
      proof (cases "run inp (Match (ZeroOrMore m) # k) xs c")
        case None
        with 4 Cons acc show ?thesis by (simp add: run.simps(4))
      next
        case (Some d)
        with 4 Cons acc show ?thesis by (simp add: run.simps(4))
      qed
    next
      case False
      with 4 Cons show ?thesis by (simp add: run.simps(4))
    qed
  qed
next
  case (5 inp m k s c)
  then show ?case by (simp add: run.simps(5))
next
  case (6 inp r k s c)
  show ?case
  proof (cases "run inp (Match r # k) s c")
    case None
    with 6 show ?thesis by (simp add: run.simps(6))
  next
    case (Some d)
    with 6 show ?thesis by (simp add: run.simps(6))
  qed
next
  case (7 inp r1 r2 k s c)
  then show ?case by (simp add: run.simps(7))
next
  case (8 inp n r k s c)
  then show ?case by (simp add: run.simps(8))
next
  case (9 inp n s0 k s c)
  from "9.prems"(1) have "run inp k s (c(n \<mapsto> take (length s0 - length s) s0)) = Some c'"
    by (simp add: run.simps(9))
  moreover from "9.prems"(2) have k: "\<forall>i\<in>set k. g \<notin> closes i" and g: "g \<noteq> n"
    by simp_all
  ultimately have "c' g = (c(n \<mapsto> take (length s0 - length s) s0)) g"
    using "9.IH" by blast
  with g show ?case by simp
qed

text \<open>
  When a quantified matcher is followed by \<open>k\<close> and the whole succeeds, the matcher has
  taken a prefix of accepted characters and \<open>k\<close> has succeeded on the rest.
\<close>

lemma zero_or_more_then:
  "run inp (Match (ZeroOrMore m) # k) s c = Some c' \<Longrightarrow>
   \<exists>p t. s = p @ t \<and> (\<forall>x\<in>set p. accepts m x) \<and> run inp k t c = Some c'"
proof (induction s)
  case Nil
  then show ?case by (simp add: run.simps(4))
next
  case (Cons x xs)
  show ?case
  proof (cases "accepts m x \<and> run inp (Match (ZeroOrMore m) # k) xs c = Some c'")
    case True
    with Cons.IH obtain p t
      where "xs = p @ t" "\<forall>x\<in>set p. accepts m x" "run inp k t c = Some c'"
      by blast
    with True
    have "x # xs = (x # p) @ t \<and> (\<forall>y\<in>set (x # p). accepts m y) \<and> run inp k t c = Some c'"
      by simp
    then show ?thesis by blast
  next
    case False
    with Cons.prems have "run inp k (x # xs) c = Some c'"
      by (auto simp add: run.simps(4) split: if_splits option.splits)
    then have "x # xs = [] @ (x # xs) \<and> (\<forall>y\<in>set []. accepts m y)
               \<and> run inp k (x # xs) c = Some c'"
      by simp
    then show ?thesis by blast
  qed
qed

lemma single_then:
  "run inp (Match (Single m) # k) s c = Some c' \<Longrightarrow>
   \<exists>x t. s = x # t \<and> accepts m x \<and> run inp k t c = Some c'"
  by (cases s) (simp_all add: run.simps(3) split: if_splits)

lemma one_or_more_then:
  assumes "run inp (Match (OneOrMore m) # k) s c = Some c'"
  shows "\<exists>x p t. s = x # p @ t \<and> accepts m x \<and> (\<forall>y\<in>set p. accepts m y)
           \<and> run inp k t c = Some c'"
proof -
  from assms have "run inp (Match (Single m) # Match (ZeroOrMore m) # k) s c = Some c'"
    by (simp add: run.simps(5))
  from single_then [OF this] obtain x xs
    where s: "s = x # xs" and x: "accepts m x"
      and st: "run inp (Match (ZeroOrMore m) # k) xs c = Some c'"
    by blast
  from zero_or_more_then [OF st] obtain p t
    where "xs = p @ t" "\<forall>y\<in>set p. accepts m y" "run inp k t c = Some c'"
    by blast
  with s x show ?thesis by blast
qed

lemma optional_then:
  "run inp (Match (Optional r) # k) s c = Some c' \<Longrightarrow>
   run inp (Match r # k) s c = Some c' \<or> run inp k s c = Some c'"
  by (simp add: run.simps(6) split: option.splits)

subsection \<open>The authority pattern\<close>

lemma accepts_host: "accepts (Bracket False [WordClass, Chr CHR ''.'']) ch = hostch ch"
  by (auto simp add: hostch_def)

lemma host_group:
  assumes "run inp (Match (Capture 1 (OneOrMore (Bracket False [WordClass, Chr CHR ''.'']))) # k) s c
           = Some c'"
    and "\<forall>i\<in>set k. 1 \<notin> closes i"
  shows "\<exists>h. c' 1 = Some h \<and> h \<noteq> [] \<and> (\<forall>x\<in>set h. hostch x)"
proof -
  let ?H = "Bracket False [WordClass, Chr CHR ''.'']"
  from assms(1) have "run inp (Match (OneOrMore ?H) # Close 1 s # k) s c = Some c'"
    by (simp only: run.simps(8))
  from one_or_more_then [OF this] obtain x p t
    where s: "s = x # p @ t" and x: "accepts ?H x" and p: "\<forall>y\<in>set p. accepts ?H y"
      and cl: "run inp (Close 1 s # k) t c = Some c'"
    by blast
  from cl have "run inp k t (c(1 \<mapsto> x # p)) = Some c'"
    by (simp add: run.simps(9) s)
  then have "c' 1 = (c(1 \<mapsto> x # p)) 1"
    using assms(2) by (rule run_keeps)
  then have "c' 1 = Some (x # p)" by simp
  moreover from x p have "\<forall>y\<in>set (x # p). hostch y"
    by (simp add: accepts_host del: accepts.simps)
  ultimately show ?thesis by blast
qed

text \<open>
  Whenever the authority pattern matches, its first capture is a non-empty string of
  characters of \<^verbatim>\<open>[\w.]\<close>.
\<close>

lemma authority_host:
  assumes "regex_match authorityRegex a = Some m"
  shows "\<exists>h. m 1 = Some h \<and> h \<noteq> [] \<and> (\<forall>x\<in>set h. hostch x)"
proof -
  let ?G = "Capture 1 (OneOrMore (Bracket False [WordClass, Chr CHR ''.'']))"
  let ?T = "Concat (Optional (Single (Bracket False [Chr CHR '':''])))
                   (Optional (OneOrMore (Bracket False [CharRange CHR ''0'' CHR ''9''])))"
  let ?U = "Bracket False [WordClass, Chr CHR '':'']"
  let ?At = "Bracket False [Chr CHR ''@'']"
  from assms
  have "run a [Match (Optional (Concat (OneOrMore ?U) (Single ?At))), Match (Concat ?G ?T)]
          a Map.empty = Some m"
    by (simp add: regex_match_def authorityRegex_def run.simps(2,7))
  from optional_then [OF this] have "\<exists>t. run a [Match (Concat ?G ?T)] t Map.empty = Some m"
  proof
    assume "run a [Match (Concat (OneOrMore ?U) (Single ?At)), Match (Concat ?G ?T)]
              a Map.empty = Some m"
    then have "run a [Match (OneOrMore ?U), Match (Single ?At), Match (Concat ?G ?T)]
                 a Map.empty = Some m"
      by (simp only: run.simps(7))
    from one_or_more_then [OF this] obtain t
      where "run a [Match (Single ?At), Match (Concat ?G ?T)] t Map.empty = Some m"
      by blast
    from single_then [OF this] show ?thesis by blast
  next
    assume "run a [Match (Concat ?G ?T)] a Map.empty = Some m"
    then show ?thesis by blast
  qed
  then obtain t where "run a [Match (Concat ?G ?T)] t Map.empty = Some m" ..
  then have "run a [Match ?G, Match ?T] t Map.empty = Some m"
    by (simp only: run.simps(7))
  then show ?thesis
    by (rule host_group) simp
qed


lemma hostch_not_delimiter:
  "\<not> hostch CHR ''@''" "\<not> hostch CHR '':''" "\<not> hostch CHR ''/''"
  "\<not> hostch CHR ''?''" "\<not> hostch CHR ''#''"
  by (simp_all add: hostch_def is_word_def)

subsection \<open>The bounded matcher and the unbounded one\<close>























subsection \<open>The claims\<close>

text \<open>
  C7.  The host name of \<^verbatim>\<open>https://user@example.com:8080/path?q=1#frag\<close> is
  \<^verbatim>\<open>example.com\<close>: the user information and the port are left out.  The captured
  host is returned as it stands: capitals and a trailing dot are kept.
\<close>

theorem getHostname_example:
  "getHostname ''https://user@example.com:8080/path?q=1#frag'' = ''example.com''
   \<and> getHostname ''HTTP://user@EXAMPLE.com.:8080/'' = ''EXAMPLE.com.''"
  by code_simp




text \<open>
  C9.  There is a valid URI with a hyphen in its host, \<^verbatim>\<open>https://my-host.example/\<close>, for
  which \<open>getHostname\<close> returns the empty string: its authority is \<^verbatim>\<open>my-host.example\<close>,
  and the authority pattern, whose host part is \<^verbatim>\<open>[\w.]+\<close>, does not match it.
\<close>

theorem getHostname_hyphen:
  "map_option (\<lambda>m. str m 4) (regex_match rfc3986Regex ''https://my-host.example/'')
     = Some ''my-host.example''
   \<and> regex_match authorityRegex ''my-host.example'' = None
   \<and> getHostname ''https://my-host.example/'' = []"
proof -
  have a: "map_option (\<lambda>m. str m 4) (regex_match rfc3986Regex ''https://my-host.example/'')
             = Some ''my-host.example''"
    by code_simp
  have b: "regex_match authorityRegex ''my-host.example'' = None"
    by (simp add: regex_match_def authorityRegex_def run.simps is_word_def)
  have c: "getHostname ''https://my-host.example/'' = []"
    by code_simp
  from a b c show ?thesis by simp
qed

text \<open>
  C10.  For every input, every character of the result of \<open>getHostname\<close> is a word
  character (letter, digit, underscore) or a dot; so none of \<^verbatim>\<open>@ : / ? #\<close> occurs in it.
\<close>

theorem getHostname_chars:
  "(\<forall>ch\<in>set (getHostname url). is_word ch \<or> ch = CHR ''.'')
   \<and> set (getHostname url) \<inter> set ''@:/?#'' = {}"
proof -
  have host: "\<forall>ch\<in>set (getHostname url). hostch ch"
  proof (cases "url = []")
    case True
    then show ?thesis by (simp add: getHostname_def)
  next
    case False
    show ?thesis
    proof (cases "regex_match rfc3986Regex url")
      case None
      with False show ?thesis by (simp add: getHostname_def)
    next
      case (Some matches)
      show ?thesis
      proof (cases "regex_match authorityRegex (str matches 4)")
        case None
        with False Some show ?thesis by (simp add: getHostname_def)
      next
        case (Some m)
        from authority_host [OF this] obtain h
          where "m 1 = Some h" and "\<forall>x\<in>set h. hostch x"
          by blast
        with False \<open>regex_match rfc3986Regex url = Some matches\<close> Some show ?thesis
          by (simp add: getHostname_def str_def)
      qed
    qed
  qed
  then have "\<forall>ch\<in>set (getHostname url). is_word ch \<or> ch = CHR ''.''"
    by (simp add: hostch_def)
  moreover from host have "set (getHostname url) \<inter> set ''@:/?#'' = {}"
    using hostch_not_delimiter by auto
  ultimately show ?thesis ..
qed

theorem getHostname_chars_witness:
  "getHostname ''https://user@example.com:8080/path?q=1#frag'' = ''example.com''
   \<and> list_all (\<lambda>ch. is_word ch \<or> ch = CHR ''.'') ''example.com''
   \<and> set ''example.com'' \<inter> set ''@:/?#'' = {}"
proof -
  have e: "getHostname ''https://user@example.com:8080/path?q=1#frag'' = ''example.com''"
    by code_simp
  from getHostname_chars [of "''https://user@example.com:8080/path?q=1#frag''"]
  have "(\<forall>ch\<in>set ''example.com''. is_word ch \<or> ch = CHR ''.'')
        \<and> set ''example.com'' \<inter> set ''@:/?#'' = {}"
    unfolding e .
  with e show ?thesis
    unfolding list_all_iff by blast
qed

end
